theory Spec2Isabelle
  imports Main "HOL-Library.Word"
begin

unbundle bit_operations_syntax

section \<open>The boolean reader of scnlib (src/scn/impl/reader/bool_reader.h)\<close>

text \<open>
  The embedding is the narrow-character instantiation of the templates: a code unit is a
  \<^typ>\<open>char\<close>, a range is the \<^typ>\<open>string\<close> of the code units from its begin to its end
  (written \<open>rng\<close>), and an iterator into a range is the suffix of the range that starts
  where the iterator points. The reader functions are const members taking \<open>bool& value\<close>; the
  referenced boolean is threaded through as a field of an explicit store.
\<close>

subsection \<open>Errors and results\<close>

text \<open>
  Modelled from the spec: the enumeration \<open>scan_error::code\<close> is declared outside
  the sources at hand. Section 6 of the specification names the kinds that matter here: the
  value error \<open>invalidScannedValue\<close> and a specification-level kind.
\<close>

datatype error_code = invalid_scanned_value | invalid_format_string

record scan_error =
  code :: error_code
  msg :: string

type_synonym 'a scan_expected = "scan_error + 'a"

type_synonym iterator = string

definition unexpected :: "scan_error \<Rightarrow> 'a scan_expected" where
  "unexpected err = Inl err"

definition unexpected_scan_error :: "error_code \<Rightarrow> string \<Rightarrow> 'a scan_expected" where
  "unexpected_scan_error c m = unexpected \<lparr>code = c, msg = m\<rparr>"

text \<open>The number of code units between the begin of a range and an iterator into it.\<close>

definition consumed :: "string \<Rightarrow> iterator \<Rightarrow> nat" where
  "consumed rng it = length rng - length it"

subsection \<open>The store: the output boolean and a trace of what was done\<close>

text \<open>
  \<open>val\<close> is the boolean behind the reference parameter \<open>value\<close>. \<open>events\<close> is a
  ghost trace: it never influences a result, and records in order every strategy that was
  entered, every literal a match primitive was called with, every assignment to \<open>value\<close>
  and every lookup of the locale's \<open>numpunct\<close> facet.
\<close>

datatype strategy = Numeric | Textual_classic | Textual_custom

datatype event = Enter strategy | Match string | Write bool | Facet

record store =
  val :: bool
  events :: "event list"

definition emit :: "event \<Rightarrow> store \<Rightarrow> store" where
  "emit e s = s\<lparr>events := events s @ [e]\<rparr>"

definition assign :: "bool \<Rightarrow> store \<Rightarrow> store" where
  "assign b s = emit (Write b) (s\<lparr>val := b\<rparr>)"

text \<open>The events added between an earlier store and a later one.\<close>

definition new_events :: "store \<Rightarrow> store \<Rightarrow> event list" where
  "new_events s s' = drop (length (events s)) (events s')"

fun strategies :: "event list \<Rightarrow> strategy list" where
  "strategies [] = []"
| "strategies (Enter st # es) = st # strategies es"
| "strategies (e # es) = strategies es"

fun matches :: "event list \<Rightarrow> string list" where
  "matches [] = []"
| "matches (Match lit # es) = lit # matches es"
| "matches (e # es) = matches es"

fun writes :: "event list \<Rightarrow> bool list" where
  "writes [] = []"
| "writes (Write b # es) = b # writes es"
| "writes (e # es) = writes es"

text \<open>
  What a call that started in the store \<open>s\<close> and returned \<open>r\<close> did to the output
  boolean: on an error it assigned nothing and the boolean has the value it had; on success
  it assigned once, the value the boolean now has.
\<close>

definition writes_only_on_success :: "store \<Rightarrow> 'a scan_expected \<times> store \<Rightarrow> bool" where
  "writes_only_on_success s r =
     (case fst r of
        Inl e \<Rightarrow> val (snd r) = val s \<and> writes (new_events s (snd r)) = []
      | Inr it \<Rightarrow> writes (new_events s (snd r)) = [val (snd r)])"

subsection \<open>The match primitives (scn/impl/reader/common.h)\<close>

text \<open>
  Modelled from the spec: \<open>read_matching_code_unit\<close>, declared in
  \<open>scn/impl/reader/common.h\<close>, which is not among the sources at hand. Section 2 and
  section 6 of the specification: a single-code-unit match that advances past the code unit
  on a match and leaves the position untouched otherwise. The error a failed match carries
  is dropped by every caller in \<open>bool_reader.h\<close>, so a failure is \<open>None\<close>.
\<close>

definition read_matching_code_unit ::
    "string \<Rightarrow> char \<Rightarrow> store \<Rightarrow> iterator option \<times> store" where
  "read_matching_code_unit rng ch s =
     ((case rng of
         [] \<Rightarrow> None
       | c # rest \<Rightarrow> if c = ch then Some rest else None),
      emit (Match [ch]) s)"

text \<open>
  Modelled from the spec: \<open>read_matching_string\<close>, declared in
  \<open>scn/impl/reader/common.h\<close>, which is not among the sources at hand. Section 6 of
  the specification (\<open>matchLiteral\<close>): consumes and advances only on a full match of the
  literal at the current position, and leaves the position untouched on a partial match or
  none. No boundary after the literal is required (section 9).
\<close>

definition read_matching_string ::
    "string \<Rightarrow> string \<Rightarrow> store \<Rightarrow> iterator option \<times> store" where
  "read_matching_string rng str s =
     ((if take (length str) rng = str then Some (drop (length str) rng) else None),
      emit (Match str) s)"

text \<open>
  Modelled from the spec: \<open>read_matching_string_classic\<close>, declared in
  \<open>scn/impl/reader/common.h\<close>, which is not among the sources at hand. It is the
  case-sensitive literal match of section 2 against a narrow literal; for narrow code units
  it compares as \<open>read_matching_string\<close> does.
\<close>

definition read_matching_string_classic ::
    "string \<Rightarrow> string \<Rightarrow> store \<Rightarrow> iterator option \<times> store" where
  "read_matching_string_classic rng str s =
     ((if take (length str) rng = str then Some (drop (length str) rng) else None),
      emit (Match str) s)"

subsection \<open>\<open>bool_reader_base\<close>\<close>

type_synonym unsigned = "32 word"

definition allow_text :: unsigned where
  "allow_text = 1"

definition allow_numeric :: unsigned where
  "allow_numeric = 2"

record bool_reader =
  m_options :: unsigned

text \<open>The two constructors: the defaulted one takes the member initialiser.\<close>

definition bool_reader_default :: bool_reader where
  "bool_reader_default = \<lparr>m_options = allow_text OR allow_numeric\<rparr>"

definition bool_reader_base :: "unsigned \<Rightarrow> bool_reader" where
  "bool_reader_base opt = \<lparr>m_options = opt\<rparr>"

definition read_numeric :: "string \<Rightarrow> store \<Rightarrow> iterator scan_expected \<times> store" where
  "read_numeric rng s0 =
     (case read_matching_code_unit rng (CHR ''0'') (emit (Enter Numeric) s0) of
        (Some r, s1) \<Rightarrow> (Inr r, assign False s1)
      | (None, s1) \<Rightarrow>
          (case read_matching_code_unit rng (CHR ''1'') s1 of
             (Some r, s2) \<Rightarrow> (Inr r, assign True s2)
           | (None, s2) \<Rightarrow>
               (unexpected_scan_error invalid_scanned_value ''read_numeric: No match'', s2)))"

definition read_textual_classic ::
    "string \<Rightarrow> store \<Rightarrow> iterator scan_expected \<times> store" where
  "read_textual_classic rng s0 =
     (case read_matching_string_classic rng ''true'' (emit (Enter Textual_classic) s0) of
        (Some r, s1) \<Rightarrow> (Inr r, assign True s1)
      | (None, s1) \<Rightarrow>
          (case read_matching_string_classic rng ''false'' s1 of
             (Some r, s2) \<Rightarrow> (Inr r, assign False s2)
           | (None, s2) \<Rightarrow>
               (unexpected_scan_error invalid_scanned_value ''read_textual: No match'', s2)))"

text \<open>
  \<open>read_classic\<close> from its second \<open>if\<close> on (lines 50 to 59), entered with the current
  value of the local \<open>err\<close>.
\<close>

definition read_classic_text ::
    "bool_reader \<Rightarrow> string \<Rightarrow> scan_error \<Rightarrow> store \<Rightarrow> iterator scan_expected \<times> store" where
  "read_classic_text this rng err s =
     (if m_options this AND allow_text \<noteq> 0 then
        (case read_textual_classic rng s of
           (Inr it, s1) \<Rightarrow> (Inr it, s1)
         | (Inl e, s1) \<Rightarrow> (unexpected e, s1))
      else (unexpected err, s))"

definition read_classic ::
    "bool_reader \<Rightarrow> string \<Rightarrow> store \<Rightarrow> iterator scan_expected \<times> store" where
  "read_classic this rng s =
     (let err = \<lparr>code = invalid_scanned_value, msg = ''Failed to read boolean''\<rparr> in
      if m_options this AND allow_numeric \<noteq> 0 then
        (case read_numeric rng s of
           (Inr it, s1) \<Rightarrow> (Inr it, s1)
         | (Inl e, s1) \<Rightarrow> read_classic_text this rng e s1)
      else read_classic_text this rng err s)"

subsection \<open>\<open>bool_reader<CharT>\<close>\<close>

text \<open>
  Modelled from the spec: \<open>detail::locale_ref\<close>, \<open>std::numpunct\<close> and
  \<open>get_or_add_facet\<close> are declared outside the sources at hand. Section 3 of the
  specification (\<open>LocaleNames\<close>): what the reader takes from a locale is the pair of its
  true and false spellings, read-only for the duration of the call.
\<close>

record numpunct =
  truename :: string
  falsename :: string

type_synonym locale_ref = numpunct

definition get_or_add_facet :: "locale_ref \<Rightarrow> store \<Rightarrow> numpunct \<times> store" where
  "get_or_add_facet loc s = (loc, emit Facet s)"

definition read_textual_custom ::
    "string \<Rightarrow> store \<Rightarrow> string \<Rightarrow> string \<Rightarrow> iterator scan_expected \<times> store" where
  "read_textual_custom rng s0 tn fn =
     (let is_truename_shorter = (length tn \<le> length fn);
          shorter = (if is_truename_shorter then tn else fn, is_truename_shorter);
          longer = (if \<not> is_truename_shorter then tn else fn, \<not> is_truename_shorter)
      in case read_matching_string rng (fst shorter) (emit (Enter Textual_custom) s0) of
           (Some r, s1) \<Rightarrow> (Inr r, assign (snd shorter) s1)
         | (None, s1) \<Rightarrow>
             (case read_matching_string rng (fst longer) s1 of
                (Some r, s2) \<Rightarrow> (Inr r, assign (snd longer) s2)
              | (None, s2) \<Rightarrow>
                  (unexpected_scan_error invalid_scanned_value ''read_textual: No match'',
                   s2)))"

text \<open>
  \<open>read_localized\<close> from its second \<open>if\<close> on (lines 123 to 139), entered with the
  current value of the local \<open>err\<close>.
\<close>

definition read_localized_text ::
    "bool_reader \<Rightarrow> string \<Rightarrow> locale_ref \<Rightarrow> scan_error \<Rightarrow> store
      \<Rightarrow> iterator scan_expected \<times> store" where
  "read_localized_text this rng loc err s =
     (if m_options this AND allow_text \<noteq> 0 then
        (case get_or_add_facet loc s of
           (np, s1) \<Rightarrow>
             (case read_textual_custom rng s1 (truename np) (falsename np) of
                (Inr it, s2) \<Rightarrow> (Inr it, s2)
              | (Inl e, s2) \<Rightarrow> (unexpected e, s2)))
      else (unexpected err, s))"

definition read_localized ::
    "bool_reader \<Rightarrow> string \<Rightarrow> locale_ref \<Rightarrow> store \<Rightarrow> iterator scan_expected \<times> store" where
  "read_localized this rng loc s =
     (let err = \<lparr>code = invalid_scanned_value, msg = ''Failed to read boolean''\<rparr> in
      if m_options this AND allow_numeric \<noteq> 0 then
        (case read_numeric rng s of
           (Inr it, s1) \<Rightarrow> (Inr it, s1)
         | (Inl e, s1) \<Rightarrow> read_localized_text this rng loc e s1)
      else read_localized_text this rng loc err s)"

subsection \<open>\<open>reader<bool, CharT, void>\<close>\<close>

text \<open>
  Modelled from the spec: \<open>detail::presentation_type\<close> and
  \<open>detail::basic_format_specs\<close> are declared outside the sources at hand. Section 3 of
  the specification (\<open>FormatSpec\<close>): a presentation type among default, string, generic
  integer and further enumerators, and a localized flag. \<open>none\<close> is the default;
  \<open>other n\<close> stands for any enumerator that \<open>get_options\<close> does not name.
\<close>

datatype presentation_type = none | string | int_generic | other nat

record basic_format_specs =
  type :: presentation_type
  localized :: bool

definition get_options :: "basic_format_specs \<Rightarrow> unsigned" where
  "get_options specs =
     (case type specs of
        string \<Rightarrow> allow_text
      | int_generic \<Rightarrow> allow_numeric
      | _ \<Rightarrow> allow_text OR allow_numeric)"

definition read_default ::
    "string \<Rightarrow> store \<Rightarrow> locale_ref \<Rightarrow> iterator scan_expected \<times> store" where
  "read_default rng s loc = read_classic bool_reader_default rng s"

definition read_specs ::
    "string \<Rightarrow> basic_format_specs \<Rightarrow> store \<Rightarrow> locale_ref
      \<Rightarrow> iterator scan_expected \<times> store" where
  "read_specs rng specs s loc =
     (let rd = bool_reader_base (get_options specs) in
      if localized specs then read_localized rd rng loc s
      else read_classic rd rng s)"

section \<open>Basic facts\<close>

subsection \<open>The store and its trace\<close>

lemma events_emit: "events (emit e s) = events s @ [e]"
  by (simp add: emit_def)

lemma val_emit: "val (emit e s) = val s"
  by (simp add: emit_def)

lemma events_assign: "events (assign b s) = events s @ [Write b]"
  by (simp add: assign_def emit_def)

lemma val_assign: "val (assign b s) = b"
  by (simp add: assign_def emit_def)

lemma new_events_append: "events s' = events s @ es \<Longrightarrow> new_events s s' = es"
  by (simp add: new_events_def)

lemma strategies_append: "strategies (xs @ ys) = strategies xs @ strategies ys"
  by (induction xs rule: strategies.induct) simp_all

lemma matches_append: "matches (xs @ ys) = matches xs @ matches ys"
  by (induction xs rule: matches.induct) simp_all

lemma writes_append: "writes (xs @ ys) = writes xs @ writes ys"
  by (induction xs rule: writes.induct) simp_all

lemma take_length_eq_iff: "take (length p) xs = p \<longleftrightarrow> (\<exists>r. xs = p @ r)"
  by (metis append_eq_conv_conj append_take_drop_id)

lemma read_matching_code_unit_match:
  "read_matching_code_unit (ch # rest) ch s = (Some rest, emit (Match [ch]) s)"
  by (simp add: read_matching_code_unit_def)

lemma read_matching_code_unit_no_match:
  "\<forall>rest. rng \<noteq> ch # rest \<Longrightarrow> read_matching_code_unit rng ch s = (None, emit (Match [ch]) s)"
  by (cases rng) (auto simp add: read_matching_code_unit_def)

lemma read_matching_string_match:
  "read_matching_string (p @ rest) p s = (Some rest, emit (Match p) s)"
  by (simp add: read_matching_string_def)

lemma read_matching_string_no_match:
  "\<forall>rest. rng \<noteq> p @ rest \<Longrightarrow> read_matching_string rng p s = (None, emit (Match p) s)"
  by (simp add: read_matching_string_def take_length_eq_iff)

lemma read_matching_string_classic_match:
  "read_matching_string_classic (p @ rest) p s = (Some rest, emit (Match p) s)"
  by (simp add: read_matching_string_classic_def)

lemma read_matching_string_classic_no_match:
  "\<forall>rest. rng \<noteq> p @ rest
    \<Longrightarrow> read_matching_string_classic rng p s = (None, emit (Match p) s)"
  by (simp add: read_matching_string_classic_def take_length_eq_iff)

lemma read_numeric_zero:
  "read_numeric (CHR ''0'' # rest) s =
     (Inr rest, s\<lparr>val := False, events := events s @ [Enter Numeric, Match ''0'', Write False]\<rparr>)"
  by (simp add: read_numeric_def read_matching_code_unit_match assign_def emit_def)

lemma read_numeric_one:
  "read_numeric (CHR ''1'' # rest) s =
     (Inr rest, s\<lparr>val := True,
        events := events s @ [Enter Numeric, Match ''0'', Match ''1'', Write True]\<rparr>)"
  by (simp add: read_numeric_def read_matching_code_unit_match
      read_matching_code_unit_no_match assign_def emit_def)

lemma read_numeric_no_match:
  assumes "\<forall>rest. rng \<noteq> CHR ''0'' # rest" and "\<forall>rest. rng \<noteq> CHR ''1'' # rest"
  shows "read_numeric rng s =
     (Inl \<lparr>code = invalid_scanned_value, msg = ''read_numeric: No match''\<rparr>,
      s\<lparr>events := events s @ [Enter Numeric, Match ''0'', Match ''1'']\<rparr>)"
  by (simp add: read_numeric_def read_matching_code_unit_no_match [OF assms(1)]
      read_matching_code_unit_no_match [OF assms(2)] emit_def
      unexpected_scan_error_def unexpected_def)

lemma read_numeric_cases:
  obtains (zero) rest where "rng = CHR ''0'' # rest"
  | (one) rest where "rng = CHR ''1'' # rest"
  | (no_match) "\<forall>rest. rng \<noteq> CHR ''0'' # rest" and "\<forall>rest. rng \<noteq> CHR ''1'' # rest"
  by (cases rng) auto

lemma read_textual_classic_true:
  "read_textual_classic (''true'' @ rest) s =
     (Inr rest, s\<lparr>val := True,
        events := events s @ [Enter Textual_classic, Match ''true'', Write True]\<rparr>)"
  unfolding read_textual_classic_def read_matching_string_classic_match
  by (simp add: assign_def emit_def)

lemma read_textual_classic_false:
  "read_textual_classic (''false'' @ rest) s =
     (Inr rest, s\<lparr>val := False,
        events := events s @
          [Enter Textual_classic, Match ''true'', Match ''false'', Write False]\<rparr>)"
proof -
  have "\<forall>r. ''false'' @ rest \<noteq> ''true'' @ r"
    by simp
  then show ?thesis
    unfolding read_textual_classic_def read_matching_string_classic_match
    by (simp add: read_matching_string_classic_no_match assign_def emit_def)
qed

lemma read_textual_classic_no_match:
  assumes "\<forall>rest. rng \<noteq> ''true'' @ rest" and "\<forall>rest. rng \<noteq> ''false'' @ rest"
  shows "read_textual_classic rng s =
     (Inl \<lparr>code = invalid_scanned_value, msg = ''read_textual: No match''\<rparr>,
      s\<lparr>events := events s @ [Enter Textual_classic, Match ''true'', Match ''false'']\<rparr>)"
  by (simp add: read_textual_classic_def read_matching_string_classic_no_match [OF assms(1)]
      read_matching_string_classic_no_match [OF assms(2)] emit_def
      unexpected_scan_error_def unexpected_def)

lemma read_textual_classic_cases:
  obtains (true) rest where "rng = ''true'' @ rest"
  | (false) rest where "rng = ''false'' @ rest"
  | (no_match) "\<forall>rest. rng \<noteq> ''true'' @ rest" and "\<forall>rest. rng \<noteq> ''false'' @ rest"
  by blast


lemma read_textual_custom_shorter:
  assumes "sh = (if length tn \<le> length fn then tn else fn)"
  shows "read_textual_custom (sh @ rest) s tn fn =
     (Inr rest, s\<lparr>val := (length tn \<le> length fn),
        events := events s @
          [Enter Textual_custom, Match sh, Write (length tn \<le> length fn)]\<rparr>)"
  unfolding read_textual_custom_def Let_def fst_conv snd_conv assms [symmetric]
    read_matching_string_match
  by (simp add: assign_def emit_def)

lemma read_textual_custom_longer:
  assumes "sh = (if length tn \<le> length fn then tn else fn)"
    and "lo = (if length tn \<le> length fn then fn else tn)"
    and "\<forall>r. lo @ rest \<noteq> sh @ r"
  shows "read_textual_custom (lo @ rest) s tn fn =
     (Inr rest, s\<lparr>val := \<not> (length tn \<le> length fn),
        events := events s @
          [Enter Textual_custom, Match sh, Match lo, Write (\<not> (length tn \<le> length fn))]\<rparr>)"
proof -
  have lo: "(if \<not> length tn \<le> length fn then tn else fn) = lo"
    using assms(2) by simp
  show ?thesis
    unfolding read_textual_custom_def Let_def fst_conv snd_conv assms(1) [symmetric] lo
      read_matching_string_no_match [OF assms(3)] read_matching_string_match
    by (simp add: assign_def emit_def)
qed

lemma read_textual_custom_no_match:
  assumes "sh = (if length tn \<le> length fn then tn else fn)"
    and "lo = (if length tn \<le> length fn then fn else tn)"
    and "\<forall>r. rng \<noteq> sh @ r" and "\<forall>r. rng \<noteq> lo @ r"
  shows "read_textual_custom rng s tn fn =
     (Inl \<lparr>code = invalid_scanned_value, msg = ''read_textual: No match''\<rparr>,
      s\<lparr>events := events s @ [Enter Textual_custom, Match sh, Match lo]\<rparr>)"
proof -
  have lo: "(if \<not> length tn \<le> length fn then tn else fn) = lo"
    using assms(2) by simp
  show ?thesis
    unfolding read_textual_custom_def Let_def fst_conv snd_conv assms(1) [symmetric] lo
      read_matching_string_no_match [OF assms(3)] read_matching_string_no_match [OF assms(4)]
    by (simp add: emit_def unexpected_scan_error_def unexpected_def)
qed

lemma read_textual_custom_cases:
  fixes tn fn rng :: string
  defines "sh \<equiv> (if length tn \<le> length fn then tn else fn)"
    and "lo \<equiv> (if length tn \<le> length fn then fn else tn)"
  obtains (shorter) rest where "rng = sh @ rest"
  | (longer) rest where "rng = lo @ rest" and "\<forall>r. lo @ rest \<noteq> sh @ r"
  | (no_match) "\<forall>r. rng \<noteq> sh @ r" and "\<forall>r. rng \<noteq> lo @ r"
  by blast


lemma read_numeric_trace:
  "\<exists>es. events (snd (read_numeric rng s)) = events s @ es \<and> strategies es = [Numeric]"
  by (cases rng rule: read_numeric_cases)
    (simp_all add: read_numeric_zero read_numeric_one read_numeric_no_match)

lemma read_textual_classic_trace:
  "\<exists>es. events (snd (read_textual_classic rng s)) = events s @ es
     \<and> strategies es = [Textual_classic]"
proof (cases rng rule: read_textual_classic_cases)
  case (true rest)
  show ?thesis
    unfolding true read_textual_classic_true by simp
next
  case (false rest)
  show ?thesis
    unfolding false read_textual_classic_false by simp
next
  case no_match
  show ?thesis
    unfolding read_textual_classic_no_match [OF no_match] by simp
qed

lemma read_classic_text_enabled:
  "m_options this AND allow_text \<noteq> 0
    \<Longrightarrow> read_classic_text this rng err s = read_textual_classic rng s"
  by (simp add: read_classic_text_def unexpected_def split: prod.splits sum.splits)

lemma read_classic_text_disabled:
  "m_options this AND allow_text = 0 \<Longrightarrow> read_classic_text this rng err s = (Inl err, s)"
  by (simp add: read_classic_text_def unexpected_def)

lemma read_classic_numeric_disabled:
  "m_options this AND allow_numeric = 0
    \<Longrightarrow> read_classic this rng s =
        read_classic_text this rng
          \<lparr>code = invalid_scanned_value, msg = ''Failed to read boolean''\<rparr> s"
  by (simp add: read_classic_def)

lemma read_classic_numeric_success:
  "m_options this AND allow_numeric \<noteq> 0 \<Longrightarrow> \<not> isl (fst (read_numeric rng s))
    \<Longrightarrow> read_classic this rng s = read_numeric rng s"
  by (auto simp add: read_classic_def split: prod.splits sum.splits)

lemma read_classic_numeric_failure:
  "m_options this AND allow_numeric \<noteq> 0 \<Longrightarrow> isl (fst (read_numeric rng s))
    \<Longrightarrow> read_classic this rng s =
        read_classic_text this rng (projl (fst (read_numeric rng s)))
          (snd (read_numeric rng s))"
  by (auto simp add: read_classic_def split: prod.splits sum.splits)

section \<open>The classic reader\<close>

text \<open>
  C1. For every range and every options value, \<open>read_classic\<close> enters the numeric
  strategy first whenever \<open>allow_numeric\<close> is set, and on its success returns its
  result at once, the textual strategy never being entered. The textual strategy is entered
  only when \<open>allow_text\<close> is set and the numeric one failed or was disabled, and on its
  success its result is returned at once. The strategies entered, in order, are read from
  the trace.
\<close>

theorem read_classic_numeric_before_textual:
  "strategies (new_events s (snd (read_classic this rng s))) =
      (if m_options this AND allow_numeric \<noteq> 0 then [Numeric] else []) @
      (if m_options this AND allow_text \<noteq> 0 \<and>
          (m_options this AND allow_numeric \<noteq> 0 \<longrightarrow> isl (fst (read_numeric rng s)))
       then [Textual_classic] else [])
   \<and> (m_options this AND allow_numeric \<noteq> 0 \<and> \<not> isl (fst (read_numeric rng s))
        \<longrightarrow> read_classic this rng s = read_numeric rng s)
   \<and> (m_options this AND allow_text \<noteq> 0 \<and>
        (m_options this AND allow_numeric \<noteq> 0 \<longrightarrow> isl (fst (read_numeric rng s)))
        \<longrightarrow> (let s1 = (if m_options this AND allow_numeric \<noteq> 0
                         then snd (read_numeric rng s) else s)
             in \<not> isl (fst (read_textual_classic rng s1))
                \<longrightarrow> read_classic this rng s = read_textual_classic rng s1))"
proof (cases "m_options this AND allow_numeric = 0")
  case no_numeric: True
  show ?thesis
  proof (cases "m_options this AND allow_text = 0")
    case True
    with no_numeric show ?thesis
      by (simp add: read_classic_numeric_disabled read_classic_text_disabled new_events_def)
  next
    case False
    obtain es where "events (snd (read_textual_classic rng s)) = events s @ es"
      and "strategies es = [Textual_classic]"
      using read_textual_classic_trace by blast
    with no_numeric False show ?thesis
      by (simp add: read_classic_numeric_disabled read_classic_text_enabled new_events_def)
  qed
next
  case numeric: False
  obtain es where es: "events (snd (read_numeric rng s)) = events s @ es"
    "strategies es = [Numeric]"
    using read_numeric_trace by blast
  show ?thesis
  proof (cases "isl (fst (read_numeric rng s))")
    case False
    with numeric es show ?thesis
      by (simp add: read_classic_numeric_success new_events_def)
  next
    case failed: True
    show ?thesis
    proof (cases "m_options this AND allow_text = 0")
      case True
      with numeric failed es show ?thesis
        by (simp add: read_classic_numeric_failure read_classic_text_disabled new_events_def)
    next
      case False
      obtain es' where
        "events (snd (read_textual_classic rng (snd (read_numeric rng s)))) =
           events (snd (read_numeric rng s)) @ es'"
        and "strategies es' = [Textual_classic]"
        using read_textual_classic_trace by blast
      with numeric failed False es show ?thesis
        by (simp add: read_classic_numeric_failure read_classic_text_enabled new_events_def
            strategies_append)
    qed
  qed
qed


theorem read_classic_numeric_before_textual_witness:
  "strategies (new_events \<lparr>val = False, events = []\<rparr>
      (snd (read_classic bool_reader_default ''1'' \<lparr>val = False, events = []\<rparr>))) = [Numeric]
   \<and> read_classic bool_reader_default ''1'' \<lparr>val = False, events = []\<rparr> =
       (Inr [], \<lparr>val = True,
          events = [Enter Numeric, Match ''0'', Match ''1'', Write True]\<rparr>)
   \<and> strategies (new_events \<lparr>val = False, events = []\<rparr>
      (snd (read_classic bool_reader_default ''true'' \<lparr>val = False, events = []\<rparr>))) =
       [Numeric, Textual_classic]
   \<and> read_classic bool_reader_default ''true'' \<lparr>val = False, events = []\<rparr> =
       (Inr [], \<lparr>val = True,
          events = [Enter Numeric, Match ''0'', Match ''1'', Enter Textual_classic,
            Match ''true'', Write True]\<rparr>)"
proof -
  let ?s = "\<lparr>val = False, events = []\<rparr>"
  have numeric: "m_options bool_reader_default AND allow_numeric \<noteq> 0"
    and textual: "m_options bool_reader_default AND allow_text \<noteq> 0"
    by (simp_all add: bool_reader_default_def allow_text_def allow_numeric_def)
  have one: "read_numeric ''1'' ?s =
      (Inr [], \<lparr>val = True, events = [Enter Numeric, Match ''0'', Match ''1'', Write True]\<rparr>)"
    by (simp add: read_numeric_one)
  have no: "read_numeric ''true'' ?s =
      (Inl \<lparr>code = invalid_scanned_value, msg = ''read_numeric: No match''\<rparr>,
       \<lparr>val = False, events = [Enter Numeric, Match ''0'', Match ''1'']\<rparr>)"
    by (simp add: read_numeric_no_match)
  have true: "read_textual_classic ''true''
        \<lparr>val = False, events = [Enter Numeric, Match ''0'', Match ''1'']\<rparr> =
      (Inr [], \<lparr>val = True,
          events = [Enter Numeric, Match ''0'', Match ''1'', Enter Textual_classic,
            Match ''true'', Write True]\<rparr>)"
    using read_textual_classic_true [of "[]"] by simp
  show ?thesis
    using read_classic_numeric_before_textual [of ?s bool_reader_default "''1''"]
      read_classic_numeric_before_textual [of ?s bool_reader_default "''true''"]
      numeric textual
    by (simp add: one no true new_events_def)
qed

lemma read_numeric_error:
  "fst (read_numeric rng s) = Inl e
    \<Longrightarrow> e = \<lparr>code = invalid_scanned_value, msg = ''read_numeric: No match''\<rparr>"
  by (cases rng rule: read_numeric_cases)
    (auto simp add: read_numeric_zero read_numeric_one read_numeric_no_match)

lemma read_textual_classic_error:
  assumes "fst (read_textual_classic rng s) = Inl e"
  shows "e = \<lparr>code = invalid_scanned_value, msg = ''read_textual: No match''\<rparr>"
proof (cases rng rule: read_textual_classic_cases)
  case (true rest)
  with assms show ?thesis
    unfolding true read_textual_classic_true by simp
next
  case (false rest)
  with assms show ?thesis
    unfolding false read_textual_classic_false by simp
next
  case no_match
  with assms show ?thesis
    unfolding read_textual_classic_no_match [OF no_match] by simp
qed

text \<open>
  C2. When both strategies are enabled and both fail on the input, \<open>read_classic\<close>
  returns the error of the textual strategy, the last one attempted: its message is
  \<open>read_textual: No match\<close>, which is not the numeric strategy's error.
\<close>

theorem read_classic_last_error:
  assumes "m_options this AND allow_numeric \<noteq> 0"
    and "m_options this AND allow_text \<noteq> 0"
    and "fst (read_numeric rng s) = Inl e1"
    and "fst (read_textual_classic rng (snd (read_numeric rng s))) = Inl e2"
  shows "fst (read_classic this rng s) = Inl e2 \<and> e2 \<noteq> e1
    \<and> e2 = \<lparr>code = invalid_scanned_value, msg = ''read_textual: No match''\<rparr>"
proof -
  have "isl (fst (read_numeric rng s))"
    using assms(3) by simp
  then have "read_classic this rng s = read_textual_classic rng (snd (read_numeric rng s))"
    using assms(1,2) by (simp add: read_classic_numeric_failure read_classic_text_enabled)
  moreover have "e1 = \<lparr>code = invalid_scanned_value, msg = ''read_numeric: No match''\<rparr>"
    using assms(3) by (rule read_numeric_error)
  moreover have "e2 = \<lparr>code = invalid_scanned_value, msg = ''read_textual: No match''\<rparr>"
    using assms(4) by (rule read_textual_classic_error)
  ultimately show ?thesis
    using assms(4) by simp
qed

theorem read_classic_last_error_witness:
  "fst (read_classic bool_reader_default ''2'' \<lparr>val = True, events = []\<rparr>) =
     Inl \<lparr>code = invalid_scanned_value, msg = ''read_textual: No match''\<rparr>
   \<and> fst (read_numeric ''2'' \<lparr>val = True, events = []\<rparr>) =
     Inl \<lparr>code = invalid_scanned_value, msg = ''read_numeric: No match''\<rparr>"
proof -
  let ?s = "\<lparr>val = True, events = []\<rparr>"
  let ?e1 = "\<lparr>code = invalid_scanned_value, msg = ''read_numeric: No match''\<rparr>"
  let ?e2 = "\<lparr>code = invalid_scanned_value, msg = ''read_textual: No match''\<rparr>"
  have numeric: "m_options bool_reader_default AND allow_numeric \<noteq> 0"
    and textual: "m_options bool_reader_default AND allow_text \<noteq> 0"
    by (simp_all add: bool_reader_default_def allow_text_def allow_numeric_def)
  have no: "read_numeric ''2'' ?s =
      (Inl ?e1, \<lparr>val = True, events = [Enter Numeric, Match ''0'', Match ''1'']\<rparr>)"
    by (simp add: read_numeric_no_match)
  then have e1: "fst (read_numeric ''2'' ?s) = Inl ?e1"
    by simp
  have e2: "fst (read_textual_classic ''2'' (snd (read_numeric ''2'' ?s))) = Inl ?e2"
    by (simp add: read_textual_classic_no_match)
  show ?thesis
    using read_classic_last_error [OF numeric textual e1 e2] e1 by simp
qed

text \<open>
  C5. \<open>read_numeric\<close> matches exactly one code unit. A range starting with \<open>0\<close>
  yields false and an iterator one code unit past the begin; a range starting with \<open>1\<close>
  yields true and an iterator one code unit past the begin; on any other range, the empty
  one included, the result is the error \<open>invalid_scanned_value\<close>, which carries no
  advanced iterator, and the output boolean keeps its value. The only literals tried are
  the code unit \<open>0\<close> and then the code unit \<open>1\<close>.
\<close>

theorem read_numeric_one_code_unit:
  "(rng = CHR ''0'' # rest \<longrightarrow>
      fst (read_numeric rng s) = Inr rest \<and> consumed rng rest = 1
      \<and> val (snd (read_numeric rng s)) = False)
   \<and> (rng = CHR ''1'' # rest \<longrightarrow>
      fst (read_numeric rng s) = Inr rest \<and> consumed rng rest = 1
      \<and> val (snd (read_numeric rng s)) = True)
   \<and> ((\<forall>r. rng \<noteq> CHR ''0'' # r) \<and> (\<forall>r. rng \<noteq> CHR ''1'' # r) \<longrightarrow>
      fst (read_numeric rng s) =
        Inl \<lparr>code = invalid_scanned_value, msg = ''read_numeric: No match''\<rparr>
      \<and> val (snd (read_numeric rng s)) = val s)
   \<and> (\<forall>it. fst (read_numeric rng s) = Inr it \<longrightarrow>
        consumed rng it = 1 \<and> (rng = CHR ''0'' # it \<or> rng = CHR ''1'' # it))
   \<and> matches (new_events s (snd (read_numeric rng s))) \<in> {[''0''], [''0'', ''1'']}"
  by (cases rng rule: read_numeric_cases)
    (auto simp add: read_numeric_zero read_numeric_one read_numeric_no_match consumed_def
      new_events_def)

theorem read_numeric_one_code_unit_witness:
  "fst (read_numeric ''0 or 1'' \<lparr>val = True, events = []\<rparr>) = Inr '' or 1''
   \<and> val (snd (read_numeric ''0 or 1'' \<lparr>val = True, events = []\<rparr>)) = False
   \<and> fst (read_numeric ''1 extra'' \<lparr>val = False, events = []\<rparr>) = Inr '' extra''
   \<and> val (snd (read_numeric ''1 extra'' \<lparr>val = False, events = []\<rparr>)) = True
   \<and> consumed ''1 extra'' '' extra'' = 1
   \<and> fst (read_numeric ''2'' \<lparr>val = True, events = []\<rparr>) =
        Inl \<lparr>code = invalid_scanned_value, msg = ''read_numeric: No match''\<rparr>
   \<and> val (snd (read_numeric ''2'' \<lparr>val = True, events = []\<rparr>))"
  using read_numeric_one_code_unit [of "''0 or 1''" "'' or 1''" "\<lparr>val = True, events = []\<rparr>"]
    read_numeric_one_code_unit [of "''1 extra''" "'' extra''" "\<lparr>val = False, events = []\<rparr>"]
    read_numeric_one_code_unit [of "''2''" "[]" "\<lparr>val = True, events = []\<rparr>"]
  by simp

text \<open>
  C6. \<open>read_textual_classic\<close> tries the literal \<open>true\<close> and else the literal
  \<open>false\<close>. A range starting with \<open>true\<close> yields true and an iterator 4 code
  units past the begin; a range starting with \<open>false\<close> yields false and an iterator
  5 code units past the begin. The match is case-sensitive: on \<open>TRUE\<close> it fails. On
  every failure the result is the error \<open>invalid_scanned_value\<close>, which carries no
  advanced iterator, and the output boolean keeps its value.
\<close>

theorem read_textual_classic_literals:
  "(rng = ''true'' @ rest \<longrightarrow>
      fst (read_textual_classic rng s) = Inr rest \<and> consumed rng rest = 4
      \<and> val (snd (read_textual_classic rng s)) = True)
   \<and> (rng = ''false'' @ rest \<longrightarrow>
      fst (read_textual_classic rng s) = Inr rest \<and> consumed rng rest = 5
      \<and> val (snd (read_textual_classic rng s)) = False)
   \<and> ((\<forall>r. rng \<noteq> ''true'' @ r) \<and> (\<forall>r. rng \<noteq> ''false'' @ r) \<longrightarrow>
      fst (read_textual_classic rng s) =
        Inl \<lparr>code = invalid_scanned_value, msg = ''read_textual: No match''\<rparr>
      \<and> val (snd (read_textual_classic rng s)) = val s)
   \<and> fst (read_textual_classic ''TRUE'' s) =
        Inl \<lparr>code = invalid_scanned_value, msg = ''read_textual: No match''\<rparr>
   \<and> val (snd (read_textual_classic ''TRUE'' s)) = val s
   \<and> matches (new_events s (snd (read_textual_classic rng s))) \<in>
        {[''true''], [''true'', ''false'']}"
proof -
  have upper: "fst (read_textual_classic ''TRUE'' s) =
        Inl \<lparr>code = invalid_scanned_value, msg = ''read_textual: No match''\<rparr>
      \<and> val (snd (read_textual_classic ''TRUE'' s)) = val s"
    by (simp add: read_textual_classic_no_match)
  show ?thesis
  proof (cases rng rule: read_textual_classic_cases)
    case (true r)
    have "fst (read_textual_classic rng s) = Inr r \<and> consumed rng r = 4
      \<and> val (snd (read_textual_classic rng s)) = True
      \<and> matches (new_events s (snd (read_textual_classic rng s))) = [''true'']"
      unfolding true read_textual_classic_true
      by (simp add: consumed_def new_events_def)
    with true upper show ?thesis
      by auto
  next
    case (false r)
    have "fst (read_textual_classic rng s) = Inr r \<and> consumed rng r = 5
      \<and> val (snd (read_textual_classic rng s)) = False
      \<and> matches (new_events s (snd (read_textual_classic rng s))) = [''true'', ''false'']"
      unfolding false read_textual_classic_false
      by (simp add: consumed_def new_events_def)
    with false upper show ?thesis
      by auto
  next
    case no_match
    have "fst (read_textual_classic rng s) =
        Inl \<lparr>code = invalid_scanned_value, msg = ''read_textual: No match''\<rparr>
      \<and> val (snd (read_textual_classic rng s)) = val s
      \<and> matches (new_events s (snd (read_textual_classic rng s))) = [''true'', ''false'']"
      unfolding read_textual_classic_no_match [OF no_match]
      by (simp add: new_events_def)
    with no_match upper show ?thesis
      by auto
  qed
qed

theorem read_textual_classic_literals_witness:
  "fst (read_textual_classic ''true'' \<lparr>val = False, events = []\<rparr>) = Inr []
   \<and> consumed ''true'' [] = 4
   \<and> val (snd (read_textual_classic ''true'' \<lparr>val = False, events = []\<rparr>))
   \<and> fst (read_textual_classic ''false'' \<lparr>val = True, events = []\<rparr>) = Inr []
   \<and> consumed ''false'' [] = 5
   \<and> \<not> val (snd (read_textual_classic ''false'' \<lparr>val = True, events = []\<rparr>))
   \<and> fst (read_textual_classic ''TRUE'' \<lparr>val = False, events = []\<rparr>) =
        Inl \<lparr>code = invalid_scanned_value, msg = ''read_textual: No match''\<rparr>
   \<and> fst (read_textual_classic ''tru'' \<lparr>val = False, events = []\<rparr>) =
        Inl \<lparr>code = invalid_scanned_value, msg = ''read_textual: No match''\<rparr>"
  using read_textual_classic_literals [of "''true''" "[]" "\<lparr>val = False, events = []\<rparr>"]
    read_textual_classic_literals [of "''false''" "[]" "\<lparr>val = True, events = []\<rparr>"]
    read_textual_classic_literals [of "''tru''" "[]" "\<lparr>val = False, events = []\<rparr>"]
  by simp

section \<open>The localized reader and the dispatcher\<close>

lemma read_localized_text_enabled:
  "m_options this AND allow_text \<noteq> 0
    \<Longrightarrow> read_localized_text this rng loc err s =
        read_textual_custom rng (emit Facet s) (truename loc) (falsename loc)"
  by (simp add: read_localized_text_def get_or_add_facet_def unexpected_def
      split: prod.splits sum.splits)

lemma read_localized_text_disabled:
  "m_options this AND allow_text = 0
    \<Longrightarrow> read_localized_text this rng loc err s = (Inl err, s)"
  by (simp add: read_localized_text_def unexpected_def)

lemma read_localized_numeric_disabled:
  "m_options this AND allow_numeric = 0
    \<Longrightarrow> read_localized this rng loc s =
        read_localized_text this rng loc
          \<lparr>code = invalid_scanned_value, msg = ''Failed to read boolean''\<rparr> s"
  by (simp add: read_localized_def)

lemma read_localized_numeric_success:
  "m_options this AND allow_numeric \<noteq> 0 \<Longrightarrow> \<not> isl (fst (read_numeric rng s))
    \<Longrightarrow> read_localized this rng loc s = read_numeric rng s"
  by (auto simp add: read_localized_def split: prod.splits sum.splits)

lemma read_localized_numeric_failure:
  "m_options this AND allow_numeric \<noteq> 0 \<Longrightarrow> isl (fst (read_numeric rng s))
    \<Longrightarrow> read_localized this rng loc s =
        read_localized_text this rng loc (projl (fst (read_numeric rng s)))
          (snd (read_numeric rng s))"
  by (auto simp add: read_localized_def split: prod.splits sum.splits)

text \<open>
  C7. When the options have neither \<open>allow_text\<close> nor \<open>allow_numeric\<close> set,
  \<open>read_classic\<close> fails on every range with the error \<open>invalid_scanned_value\<close>
  and the message \<open>Failed to read boolean\<close>, and leaves the store as it was: no
  strategy is entered, no literal is tried and nothing is written. \<open>read_localized\<close>
  does the same, and the trace shows no lookup of the locale's facet.
\<close>

theorem read_without_options:
  assumes "m_options this AND allow_text = 0"
    and "m_options this AND allow_numeric = 0"
  shows "read_classic this rng s =
      (Inl \<lparr>code = invalid_scanned_value, msg = ''Failed to read boolean''\<rparr>, s)
    \<and> read_localized this rng loc s =
      (Inl \<lparr>code = invalid_scanned_value, msg = ''Failed to read boolean''\<rparr>, s)
    \<and> new_events s (snd (read_classic this rng s)) = []
    \<and> new_events s (snd (read_localized this rng loc s)) = []"
  using assms
  by (simp add: read_classic_numeric_disabled read_classic_text_disabled
      read_localized_numeric_disabled read_localized_text_disabled new_events_def)

theorem read_without_options_witness:
  "read_classic (bool_reader_base 4) ''1'' \<lparr>val = False, events = []\<rparr> =
      (Inl \<lparr>code = invalid_scanned_value, msg = ''Failed to read boolean''\<rparr>,
       \<lparr>val = False, events = []\<rparr>)
   \<and> read_localized (bool_reader_base 0) ''yes'' \<lparr>truename = ''yes'', falsename = ''no''\<rparr>
        \<lparr>val = False, events = []\<rparr> =
      (Inl \<lparr>code = invalid_scanned_value, msg = ''Failed to read boolean''\<rparr>,
       \<lparr>val = False, events = []\<rparr>)"
proof -
  have four: "m_options (bool_reader_base 4) AND allow_text = 0"
    "m_options (bool_reader_base 4) AND allow_numeric = 0"
    by (simp_all add: bool_reader_base_def allow_text_def allow_numeric_def)
  have zero: "m_options (bool_reader_base 0) AND allow_text = 0"
    "m_options (bool_reader_base 0) AND allow_numeric = 0"
    by (simp_all add: bool_reader_base_def)
  show ?thesis
    using read_without_options [OF four, of "''1''" "\<lparr>val = False, events = []\<rparr>"]
      read_without_options [OF zero, of "''yes''" "\<lparr>val = False, events = []\<rparr>"
        "\<lparr>truename = ''yes'', falsename = ''no''\<rparr>"]
    by simp
qed

text \<open>
  C4. \<open>get_options\<close> depends on the presentation type of the format specification
  only, and every presentation type is mapped: \<open>string\<close> to the text bit alone,
  \<open>int_generic\<close> to the numeric bit alone, and every other presentation type, the
  default \<open>none\<close> included, to both bits.
\<close>

theorem get_options_by_presentation_type:
  "(type specs = string \<longrightarrow>
      get_options specs = allow_text
      \<and> get_options specs AND allow_text \<noteq> 0 \<and> get_options specs AND allow_numeric = 0)
   \<and> (type specs = int_generic \<longrightarrow>
      get_options specs = allow_numeric
      \<and> get_options specs AND allow_text = 0 \<and> get_options specs AND allow_numeric \<noteq> 0)
   \<and> (type specs \<noteq> string \<and> type specs \<noteq> int_generic \<longrightarrow>
      get_options specs = allow_text OR allow_numeric
      \<and> get_options specs AND allow_text \<noteq> 0 \<and> get_options specs AND allow_numeric \<noteq> 0)
   \<and> (type specs = type specs' \<longrightarrow> get_options specs = get_options specs')"
  by (cases "type specs")
    (simp_all add: get_options_def allow_text_def allow_numeric_def)

theorem get_options_by_presentation_type_witness:
  "get_options \<lparr>type = string, localized = False\<rparr> = allow_text
   \<and> get_options \<lparr>type = int_generic, localized = True\<rparr> = allow_numeric
   \<and> get_options \<lparr>type = none, localized = False\<rparr> = allow_text OR allow_numeric
   \<and> get_options \<lparr>type = other 7, localized = True\<rparr> = allow_text OR allow_numeric
   \<and> get_options \<lparr>type = none, localized = False\<rparr> =
       get_options \<lparr>type = none, localized = True\<rparr>"
proof -
  have "get_options \<lparr>type = string, localized = False\<rparr> = allow_text"
    using get_options_by_presentation_type [of "\<lparr>type = string, localized = False\<rparr>"]
    by simp
  moreover have "get_options \<lparr>type = int_generic, localized = True\<rparr> = allow_numeric"
    using get_options_by_presentation_type [of "\<lparr>type = int_generic, localized = True\<rparr>"]
    by simp
  moreover have "get_options \<lparr>type = none, localized = False\<rparr> = allow_text OR allow_numeric"
    using get_options_by_presentation_type [of "\<lparr>type = none, localized = False\<rparr>"]
    by simp
  moreover have "get_options \<lparr>type = other 7, localized = True\<rparr> =
      allow_text OR allow_numeric"
    using get_options_by_presentation_type [of "\<lparr>type = other 7, localized = True\<rparr>"]
    by simp
  moreover have "type \<lparr>type = none, localized = False\<rparr> =
      type \<lparr>type = none, localized = True\<rparr>"
    by simp
  then have "get_options \<lparr>type = none, localized = False\<rparr> =
      get_options \<lparr>type = none, localized = True\<rparr>"
    using get_options_by_presentation_type [of "\<lparr>type = none, localized = False\<rparr>"
      "\<lparr>type = none, localized = True\<rparr>"]
    by blast
  ultimately show ?thesis
    by blast
qed

text \<open>
  C9. The outcome of \<open>read_default\<close> does not depend on its locale argument: for any
  two locales it returns the same result and store, those of \<open>read_classic\<close> on a
  reader whose options have both \<open>allow_text\<close> and \<open>allow_numeric\<close> set.
\<close>

theorem read_default_ignores_locale:
  "read_default rng s l1 = read_default rng s l2
   \<and> read_default rng s l1 = read_classic \<lparr>m_options = allow_text OR allow_numeric\<rparr> rng s
   \<and> m_options bool_reader_default AND allow_text \<noteq> 0
   \<and> m_options bool_reader_default AND allow_numeric \<noteq> 0
   \<and> read_default rng s l1 = read_classic (bool_reader_base (allow_text OR allow_numeric)) rng s"
  by (simp add: read_default_def bool_reader_default_def bool_reader_base_def
      allow_text_def allow_numeric_def)

subsection \<open>The textual branch of the localized reader\<close>

lemma yes_no:
  "read_textual_custom (''no'' @ rest) s ''yes'' ''no'' =
     (Inr rest, s\<lparr>val := False,
        events := events s @ [Enter Textual_custom, Match ''no'', Write False]\<rparr>)"
  "read_textual_custom (''yes'' @ rest) s ''yes'' ''no'' =
     (Inr rest, s\<lparr>val := True,
        events := events s @ [Enter Textual_custom, Match ''no'', Match ''yes'', Write True]\<rparr>)"
  "read_textual_custom ''y'' s ''yes'' ''no'' =
     (Inl \<lparr>code = invalid_scanned_value, msg = ''read_textual: No match''\<rparr>,
      s\<lparr>events := events s @ [Enter Textual_custom, Match ''no'', Match ''yes'']\<rparr>)"
proof -
  show "read_textual_custom (''no'' @ rest) s ''yes'' ''no'' =
     (Inr rest, s\<lparr>val := False,
        events := events s @ [Enter Textual_custom, Match ''no'', Write False]\<rparr>)"
    using read_textual_custom_shorter [of "''no''" "''yes''" "''no''" rest s] by simp
  show "read_textual_custom (''yes'' @ rest) s ''yes'' ''no'' =
     (Inr rest, s\<lparr>val := True,
        events := events s @ [Enter Textual_custom, Match ''no'', Match ''yes'', Write True]\<rparr>)"
    using read_textual_custom_longer [of "''no''" "''yes''" "''no''" "''yes''" rest s] by simp
  show "read_textual_custom ''y'' s ''yes'' ''no'' =
     (Inl \<lparr>code = invalid_scanned_value, msg = ''read_textual: No match''\<rparr>,
      s\<lparr>events := events s @ [Enter Textual_custom, Match ''no'', Match ''yes'']\<rparr>)"
    using read_textual_custom_no_match [of "''no''" "''yes''" "''no''" "''yes''" "''y''" s]
    by simp
qed

text \<open>
  C3. In \<open>read_textual_custom\<close> the two spellings are ordered by length and the
  shorter one is tried first: the literals tried are the shorter one alone when it matches,
  and the shorter one followed by the longer one otherwise. On success the range begins
  with the spelling that matched, and the boolean assigned is the one that spelling stands
  for, whichever place it had in the order. The call fails exactly when the range begins
  with neither spelling. With the true name \<open>yes\<close> and the false name \<open>no\<close>, the
  input \<open>no\<close> gives false and an iterator 2 code units on, the input \<open>yes\<close> gives
  true and an iterator 3 code units on, and the input \<open>y\<close> fails.
\<close>

theorem read_textual_custom_shorter_first:
  "(let r = read_textual_custom rng s tn fn;
        ms = matches (new_events s (snd r));
        sh = (if length tn \<le> length fn then tn else fn);
        lo = (if length tn \<le> length fn then fn else tn)
    in length sh \<le> length lo
       \<and> (ms = [sh] \<or> ms = [sh, lo])
       \<and> (ms = [sh] \<longleftrightarrow> (\<exists>rest. rng = sh @ rest))
       \<and> (\<forall>it. fst r = Inr it \<longrightarrow>
            rng = last ms @ it \<and> last ms = (if val (snd r) then tn else fn))
       \<and> (isl (fst r) \<longleftrightarrow> (\<forall>rest. rng \<noteq> tn @ rest \<and> rng \<noteq> fn @ rest)))
   \<and> fst (read_textual_custom ''no'' s ''yes'' ''no'') = Inr []
   \<and> consumed ''no'' [] = 2
   \<and> val (snd (read_textual_custom ''no'' s ''yes'' ''no'')) = False
   \<and> fst (read_textual_custom ''yes'' s ''yes'' ''no'') = Inr []
   \<and> consumed ''yes'' [] = 3
   \<and> val (snd (read_textual_custom ''yes'' s ''yes'' ''no'')) = True
   \<and> fst (read_textual_custom ''y'' s ''yes'' ''no'') =
        Inl \<lparr>code = invalid_scanned_value, msg = ''read_textual: No match''\<rparr>"
proof -
  define sh where "sh = (if length tn \<le> length fn then tn else fn)"
  define lo where "lo = (if length tn \<le> length fn then fn else tn)"
  define r where "r = read_textual_custom rng s tn fn"
  define ms where "ms = matches (new_events s (snd r))"
  have len: "length sh \<le> length lo"
    by (simp add: sh_def lo_def)
  have names: "(\<forall>rest. rng \<noteq> tn @ rest \<and> rng \<noteq> fn @ rest) \<longleftrightarrow>
      (\<forall>rest. rng \<noteq> sh @ rest) \<and> (\<forall>rest. rng \<noteq> lo @ rest)"
    by (auto simp add: sh_def lo_def)
  have general: "(ms = [sh] \<or> ms = [sh, lo])
       \<and> (ms = [sh] \<longleftrightarrow> (\<exists>rest. rng = sh @ rest))
       \<and> (\<forall>it. fst r = Inr it \<longrightarrow>
            rng = last ms @ it \<and> last ms = (if val (snd r) then tn else fn))
       \<and> (isl (fst r) \<longleftrightarrow> (\<forall>rest. rng \<noteq> tn @ rest \<and> rng \<noteq> fn @ rest))"
  proof (cases rng tn fn rule: read_textual_custom_cases)
    case (shorter rest)
    then have rng: "rng = sh @ rest"
      by (simp add: sh_def)
    have "r = (Inr rest, s\<lparr>val := (length tn \<le> length fn),
        events := events s @
          [Enter Textual_custom, Match sh, Write (length tn \<le> length fn)]\<rparr>)"
      unfolding r_def rng by (rule read_textual_custom_shorter) (rule sh_def)
    then have "ms = [sh]" "fst r = Inr rest" "val (snd r) = (length tn \<le> length fn)"
      by (simp_all add: ms_def new_events_def)
    with rng show ?thesis
      unfolding names by (auto simp add: sh_def)
  next
    case (longer rest)
    then have rng: "rng = lo @ rest" and no: "\<forall>r. lo @ rest \<noteq> sh @ r"
      by (simp_all add: sh_def lo_def)
    have "r = (Inr rest, s\<lparr>val := \<not> (length tn \<le> length fn),
        events := events s @
          [Enter Textual_custom, Match sh, Match lo, Write (\<not> (length tn \<le> length fn))]\<rparr>)"
      unfolding r_def rng using sh_def lo_def no by (rule read_textual_custom_longer)
    then have "ms = [sh, lo]" "fst r = Inr rest" "val (snd r) = (\<not> (length tn \<le> length fn))"
      by (simp_all add: ms_def new_events_def)
    with rng no show ?thesis
      unfolding names by (auto simp add: lo_def)
  next
    case no_match
    then have no: "\<forall>r. rng \<noteq> sh @ r" "\<forall>r. rng \<noteq> lo @ r"
      by (simp_all add: sh_def lo_def)
    have "r = (Inl \<lparr>code = invalid_scanned_value, msg = ''read_textual: No match''\<rparr>,
      s\<lparr>events := events s @ [Enter Textual_custom, Match sh, Match lo]\<rparr>)"
      unfolding r_def using sh_def lo_def no by (rule read_textual_custom_no_match)
    then have "ms = [sh, lo]" "isl (fst r)"
      by (simp_all add: ms_def new_events_def)
    with no show ?thesis
      unfolding names by auto
  qed
  have examples: "fst (read_textual_custom ''no'' s ''yes'' ''no'') = Inr []
     \<and> consumed ''no'' [] = 2
     \<and> val (snd (read_textual_custom ''no'' s ''yes'' ''no'')) = False
     \<and> fst (read_textual_custom ''yes'' s ''yes'' ''no'') = Inr []
     \<and> consumed ''yes'' [] = 3
     \<and> val (snd (read_textual_custom ''yes'' s ''yes'' ''no'')) = True
     \<and> fst (read_textual_custom ''y'' s ''yes'' ''no'') =
        Inl \<lparr>code = invalid_scanned_value, msg = ''read_textual: No match''\<rparr>"
    using yes_no(1) [of "[]" s] yes_no(2) [of "[]" s] yes_no(3) [of s]
    by (simp add: consumed_def)
  from len general examples show ?thesis
    unfolding Let_def r_def [symmetric] ms_def [symmetric] sh_def [symmetric]
      lo_def [symmetric]
    by blast
qed


theorem read_textual_custom_shorter_first_witness:
  "matches (new_events \<lparr>val = False, events = []\<rparr>
      (snd (read_textual_custom ''yes and more'' \<lparr>val = False, events = []\<rparr> ''yes'' ''no'')))
     = [''no'', ''yes'']
   \<and> fst (read_textual_custom ''yes and more'' \<lparr>val = False, events = []\<rparr> ''yes'' ''no'')
     = Inr '' and more''
   \<and> val (snd (read_textual_custom ''yes and more'' \<lparr>val = False, events = []\<rparr>
        ''yes'' ''no''))
   \<and> fst (read_textual_custom ''no'' \<lparr>val = True, events = []\<rparr> ''yes'' ''no'') = Inr []
   \<and> \<not> val (snd (read_textual_custom ''no'' \<lparr>val = True, events = []\<rparr> ''yes'' ''no''))
   \<and> isl (fst (read_textual_custom ''y'' \<lparr>val = True, events = []\<rparr> ''yes'' ''no''))"
proof -
  have more: "read_textual_custom ''yes and more'' \<lparr>val = False, events = []\<rparr> ''yes'' ''no'' =
      (Inr '' and more'', \<lparr>val = True,
         events = [Enter Textual_custom, Match ''no'', Match ''yes'', Write True]\<rparr>)"
    using yes_no(2) [of "'' and more''" "\<lparr>val = False, events = []\<rparr>"] by simp
  show ?thesis
    using read_textual_custom_shorter_first [of "''yes and more''"
        "\<lparr>val = False, events = []\<rparr>" "''yes''" "''no''"]
      read_textual_custom_shorter_first [of "''no''" "\<lparr>val = True, events = []\<rparr>"
        "''yes''" "''no''"]
    by (simp add: more new_events_def Let_def)
qed

text \<open>
  C10. When the true name and the false name have equal length, \<open>read_textual_custom\<close>
  takes the true name for the shorter candidate and tries it first; a range that begins with
  the true name yields true without the false name being tried. In particular, when the two
  names are the same, every successful call yields true.
\<close>

theorem read_textual_custom_equal_length:
  assumes "length tn = length fn"
  shows "take 1 (matches (new_events s (snd (read_textual_custom rng s tn fn)))) = [tn]
    \<and> ((\<exists>rest. rng = tn @ rest) \<longrightarrow>
         fst (read_textual_custom rng s tn fn) = Inr (drop (length tn) rng)
         \<and> val (snd (read_textual_custom rng s tn fn)) = True
         \<and> matches (new_events s (snd (read_textual_custom rng s tn fn))) = [tn])
    \<and> (tn = fn \<longrightarrow>
         (\<forall>it. fst (read_textual_custom rng s tn fn) = Inr it \<longrightarrow>
            val (snd (read_textual_custom rng s tn fn)) = True))"
proof -
  have sh: "tn = (if length tn \<le> length fn then tn else fn)"
    and lo: "fn = (if length tn \<le> length fn then fn else tn)"
    and le: "length tn \<le> length fn"
    using assms by simp_all
  show ?thesis
  proof (cases "\<exists>rest. rng = tn @ rest")
    case True
    then obtain rest where rng: "rng = tn @ rest"
      by blast
    show ?thesis
      unfolding rng read_textual_custom_shorter [OF sh]
      using le by (simp add: new_events_def)
  next
    case no_true: False
    then have nt: "\<forall>r. rng \<noteq> tn @ r"
      by blast
    from no_true have differ: "tn \<noteq> fn \<or> (\<forall>r. rng \<noteq> fn @ r)"
      by blast
    show ?thesis
    proof (cases "\<exists>rest. rng = fn @ rest")
      case True
      then obtain rest where rng: "rng = fn @ rest"
        by blast
      with nt have "\<forall>r. fn @ rest \<noteq> tn @ r"
        by simp
      from read_textual_custom_longer [OF sh lo this] no_true differ rng
      show ?thesis
        by (auto simp add: new_events_def)
    next
      case False
      then have "\<forall>r. rng \<noteq> fn @ r"
        by blast
      from read_textual_custom_no_match [OF sh lo nt this, of s] no_true
      show ?thesis
        by (auto simp add: new_events_def)
    qed
  qed
qed

theorem read_textual_custom_equal_length_witness:
  "length ''ja'' = length ''ja''
   \<and> read_textual_custom ''ja!'' \<lparr>val = False, events = []\<rparr> ''ja'' ''ja'' =
      (Inr ''!'', \<lparr>val = True, events = [Enter Textual_custom, Match ''ja'', Write True]\<rparr>)
   \<and> take 1 (matches (new_events \<lparr>val = False, events = []\<rparr>
        (snd (read_textual_custom ''no'' \<lparr>val = False, events = []\<rparr> ''ja'' ''no'')))) =
      [''ja'']"
proof -
  have len: "length ''ja'' = length ''ja''" "length ''ja'' = length ''no''"
    by simp_all
  have same: "read_textual_custom ''ja!'' \<lparr>val = False, events = []\<rparr> ''ja'' ''ja'' =
      (Inr ''!'', \<lparr>val = True, events = [Enter Textual_custom, Match ''ja'', Write True]\<rparr>)"
    using read_textual_custom_shorter [of "''ja''" "''ja''" "''ja''" "''!''"
        "\<lparr>val = False, events = []\<rparr>"]
    by simp
  show ?thesis
    using read_textual_custom_equal_length [OF len(1), of "\<lparr>val = False, events = []\<rparr>"
        "''ja!''"]
      read_textual_custom_equal_length [OF len(2), of "\<lparr>val = False, events = []\<rparr>"
        "''no''"]
    by (simp add: same)
qed

section \<open>The output boolean\<close>

lemma read_textual_custom_trace:
  "\<exists>es. events (snd (read_textual_custom rng s tn fn)) = events s @ es
     \<and> strategies es = [Textual_custom]"
proof (cases rng tn fn rule: read_textual_custom_cases)
  case (shorter rest)
  show ?thesis
    unfolding shorter read_textual_custom_shorter [OF refl] by simp
next
  case (longer rest)
  show ?thesis
    unfolding longer(1) read_textual_custom_longer [OF refl refl longer(2)] by simp
next
  case no_match
  show ?thesis
    unfolding read_textual_custom_no_match [OF refl refl no_match] by simp
qed

lemma read_numeric_writes: "writes_only_on_success s (read_numeric rng s)"
  by (cases rng rule: read_numeric_cases)
    (simp_all add: read_numeric_zero read_numeric_one read_numeric_no_match
      writes_only_on_success_def new_events_def)

lemma read_textual_classic_writes: "writes_only_on_success s (read_textual_classic rng s)"
proof (cases rng rule: read_textual_classic_cases)
  case (true rest)
  show ?thesis
    unfolding true read_textual_classic_true
    by (simp add: writes_only_on_success_def new_events_def)
next
  case (false rest)
  show ?thesis
    unfolding false read_textual_classic_false
    by (simp add: writes_only_on_success_def new_events_def)
next
  case no_match
  show ?thesis
    unfolding read_textual_classic_no_match [OF no_match]
    by (simp add: writes_only_on_success_def new_events_def)
qed

lemma read_textual_custom_writes:
  "writes_only_on_success s (read_textual_custom rng s tn fn)"
proof (cases rng tn fn rule: read_textual_custom_cases)
  case (shorter rest)
  show ?thesis
    unfolding shorter read_textual_custom_shorter [OF refl]
    by (simp add: writes_only_on_success_def new_events_def)
next
  case (longer rest)
  show ?thesis
    unfolding longer(1) read_textual_custom_longer [OF refl refl longer(2)]
    by (simp add: writes_only_on_success_def new_events_def)
next
  case no_match
  show ?thesis
    unfolding read_textual_custom_no_match [OF refl refl no_match]
    by (simp add: writes_only_on_success_def new_events_def)
qed

lemma read_numeric_failed_store:
  "isl (fst (read_numeric rng s))
    \<Longrightarrow> snd (read_numeric rng s) =
        s\<lparr>events := events s @ [Enter Numeric, Match ''0'', Match ''1'']\<rparr>"
  by (cases rng rule: read_numeric_cases)
    (simp_all add: read_numeric_zero read_numeric_one read_numeric_no_match)

lemma writes_only_on_success_after:
  assumes "writes_only_on_success (s\<lparr>events := events s @ es\<rparr>) r"
    and "writes es = []"
    and "\<exists>es'. events (snd r) = events s @ es @ es'"
  shows "writes_only_on_success s r"
proof -
  from assms(3) obtain es' where ext: "events (snd r) = events s @ es @ es'"
    by blast
  then have "new_events s (snd r) = es @ es'"
    and "new_events (s\<lparr>events := events s @ es\<rparr>) (snd r) = es'"
    by (simp_all add: new_events_def)
  with assms(1,2) show ?thesis
    by (simp add: writes_only_on_success_def writes_append split: sum.splits)
qed

lemma writes_only_on_success_error: "writes_only_on_success s (Inl e, s)"
  by (simp add: writes_only_on_success_def new_events_def)

lemma read_classic_writes: "writes_only_on_success s (read_classic this rng s)"
proof (cases "m_options this AND allow_numeric = 0")
  case True
  then show ?thesis
    by (cases "m_options this AND allow_text = 0")
      (simp_all add: read_classic_numeric_disabled read_classic_text_disabled
        read_classic_text_enabled writes_only_on_success_error read_textual_classic_writes)
next
  case numeric: False
  show ?thesis
  proof (cases "isl (fst (read_numeric rng s))")
    case False
    with numeric show ?thesis
      by (simp add: read_classic_numeric_success read_numeric_writes)
  next
    case True
    let ?es = "[Enter Numeric, Match ''0'', Match ''1'']"
    let ?s1 = "s\<lparr>events := events s @ ?es\<rparr>"
    have s1: "snd (read_numeric rng s) = ?s1"
      using True by (rule read_numeric_failed_store)
    show ?thesis
    proof (cases "m_options this AND allow_text = 0")
      case True
      from \<open>isl (fst (read_numeric rng s))\<close> obtain e
        where e: "fst (read_numeric rng s) = Inl e"
        by (cases "fst (read_numeric rng s)") simp_all
      have "writes_only_on_success s (Inl e, ?s1)"
        by (rule writes_only_on_success_after [where es = ?es])
          (simp_all add: writes_only_on_success_error)
      with numeric \<open>isl (fst (read_numeric rng s))\<close> True s1 e show ?thesis
        by (simp add: read_classic_numeric_failure read_classic_text_disabled)
    next
      case False
      have "writes_only_on_success s (read_textual_classic rng ?s1)"
      proof (rule writes_only_on_success_after [where es = ?es])
        show "writes_only_on_success ?s1 (read_textual_classic rng ?s1)"
          by (rule read_textual_classic_writes)
        show "writes ?es = []"
          by simp
        show "\<exists>es'. events (snd (read_textual_classic rng ?s1)) = events s @ ?es @ es'"
          using read_textual_classic_trace [of rng ?s1] by auto
      qed
      with numeric \<open>isl (fst (read_numeric rng s))\<close> False s1 show ?thesis
        by (simp add: read_classic_numeric_failure read_classic_text_enabled)
    qed
  qed
qed

lemma read_localized_writes: "writes_only_on_success s (read_localized this rng loc s)"
proof -
  have custom: "writes_only_on_success s
      (read_textual_custom rng (s\<lparr>events := events s @ es @ [Facet]\<rparr>) tn fn)"
    if "writes es = []" for es tn fn
  proof (rule writes_only_on_success_after [where es = "es @ [Facet]"])
    let ?s1 = "s\<lparr>events := events s @ es @ [Facet]\<rparr>"
    show "writes_only_on_success (s\<lparr>events := events s @ es @ [Facet]\<rparr>)
        (read_textual_custom rng ?s1 tn fn)"
      by (rule read_textual_custom_writes)
    show "writes (es @ [Facet]) = []"
      using that by (simp add: writes_append)
    show "\<exists>es'. events (snd (read_textual_custom rng ?s1 tn fn)) =
        events s @ (es @ [Facet]) @ es'"
      using read_textual_custom_trace [of rng ?s1 tn fn] by auto
  qed
  show ?thesis
  proof (cases "m_options this AND allow_numeric = 0")
    case True
    show ?thesis
    proof (cases "m_options this AND allow_text = 0")
      case True
      with \<open>m_options this AND allow_numeric = 0\<close> show ?thesis
        by (simp add: read_localized_numeric_disabled read_localized_text_disabled
            writes_only_on_success_error)
    next
      case False
      with True custom [of "[]"] show ?thesis
        by (simp add: read_localized_numeric_disabled read_localized_text_enabled emit_def)
    qed
  next
    case numeric: False
    show ?thesis
    proof (cases "isl (fst (read_numeric rng s))")
      case False
      with numeric show ?thesis
        by (simp add: read_localized_numeric_success read_numeric_writes)
    next
      case True
      let ?es = "[Enter Numeric, Match ''0'', Match ''1'']"
      let ?s1 = "s\<lparr>events := events s @ ?es\<rparr>"
      have s1: "snd (read_numeric rng s) = ?s1"
        using True by (rule read_numeric_failed_store)
      show ?thesis
      proof (cases "m_options this AND allow_text = 0")
        case True
        from \<open>isl (fst (read_numeric rng s))\<close> obtain e
          where e: "fst (read_numeric rng s) = Inl e"
          by (cases "fst (read_numeric rng s)") simp_all
        have "writes_only_on_success s (Inl e, ?s1)"
          by (rule writes_only_on_success_after [where es = ?es])
            (simp_all add: writes_only_on_success_error)
        with numeric \<open>isl (fst (read_numeric rng s))\<close> True s1 e show ?thesis
          by (simp add: read_localized_numeric_failure read_localized_text_disabled)
      next
        case False
        with numeric \<open>isl (fst (read_numeric rng s))\<close> s1 custom [of ?es] show ?thesis
          by (simp add: read_localized_numeric_failure read_localized_text_enabled emit_def)
      qed
    qed
  qed
qed

lemma writes_only_on_success_unchanged:
  "writes_only_on_success s r \<Longrightarrow> isl (fst r) \<Longrightarrow> val (snd r) = val s"
  by (auto simp add: writes_only_on_success_def split: sum.splits)

text \<open>
  C8. Each read operation of the boolean reader (\<open>read_classic\<close>,
  \<open>read_numeric\<close>, \<open>read_textual_classic\<close>, \<open>read_localized\<close>,
  \<open>read_textual_custom\<close>) assigns the output boolean only on a branch that returns
  success: a call that returns an error has made no assignment, and a call that returns
  success has made exactly one. So on every error return the output boolean holds the
  value it held before the call.
\<close>

theorem output_written_only_on_success:
  "writes_only_on_success s (read_classic this rng s)
   \<and> writes_only_on_success s (read_numeric rng s)
   \<and> writes_only_on_success s (read_textual_classic rng s)
   \<and> writes_only_on_success s (read_localized this rng loc s)
   \<and> writes_only_on_success s (read_textual_custom rng s tn fn)
   \<and> (isl (fst (read_classic this rng s)) \<longrightarrow>
        val (snd (read_classic this rng s)) = val s)
   \<and> (isl (fst (read_numeric rng s)) \<longrightarrow>
        val (snd (read_numeric rng s)) = val s)
   \<and> (isl (fst (read_textual_classic rng s)) \<longrightarrow>
        val (snd (read_textual_classic rng s)) = val s)
   \<and> (isl (fst (read_localized this rng loc s)) \<longrightarrow>
        val (snd (read_localized this rng loc s)) = val s)
   \<and> (isl (fst (read_textual_custom rng s tn fn)) \<longrightarrow>
        val (snd (read_textual_custom rng s tn fn)) = val s)"
  using read_classic_writes [of s this rng] read_numeric_writes [of s rng]
    read_textual_classic_writes [of s rng] read_localized_writes [of s this rng loc]
    read_textual_custom_writes [of s rng tn fn]
  by (simp add: writes_only_on_success_unchanged)


theorem output_written_only_on_success_witness:
  "isl (fst (read_classic bool_reader_default ''2'' \<lparr>val = True, events = []\<rparr>))
   \<and> val (snd (read_classic bool_reader_default ''2'' \<lparr>val = True, events = []\<rparr>))
   \<and> isl (fst (read_localized bool_reader_default ''y''
        \<lparr>truename = ''yes'', falsename = ''no''\<rparr> \<lparr>val = True, events = []\<rparr>))
   \<and> val (snd (read_localized bool_reader_default ''y''
        \<lparr>truename = ''yes'', falsename = ''no''\<rparr> \<lparr>val = True, events = []\<rparr>))"
proof -
  let ?s = "\<lparr>val = True, events = []\<rparr>"
  let ?loc = "\<lparr>truename = ''yes'', falsename = ''no''\<rparr>"
  have classic: "isl (fst (read_classic bool_reader_default ''2'' ?s))"
    by (simp add: read_classic_def read_classic_text_def read_numeric_def
        read_textual_classic_def read_matching_code_unit_def
        read_matching_string_classic_def bool_reader_default_def allow_text_def
        allow_numeric_def unexpected_scan_error_def unexpected_def)
  have localized: "isl (fst (read_localized bool_reader_default ''y'' ?loc ?s))"
    by (simp add: read_localized_def read_localized_text_def read_numeric_def
        read_textual_custom_def get_or_add_facet_def read_matching_code_unit_def
        read_matching_string_def bool_reader_default_def allow_text_def
        allow_numeric_def unexpected_scan_error_def unexpected_def)
  show ?thesis
    using output_written_only_on_success [of ?s bool_reader_default "''2''" ?loc "[]" "[]"]
      output_written_only_on_success [of ?s bool_reader_default "''y''" ?loc "[]" "[]"]
      classic localized
    by simp
qed

end
